theory Spec2Isabelle
  imports Complex_Main
begin

section \<open>Values of a parsed row\<close>

text \<open>
  Every component parses its CSV files with \<^verbatim>\<open>Papa.parse(text, {header: true,
  dynamicTyping: true, skipEmptyLines: true})\<close>. A row is an object keyed by the header
  names; a cell is a number, a boolean, \<^verbatim>\<open>null\<close> (a blank cell), a string (any
  other text) or \<^verbatim>\<open>undefined\<close> (the column is absent from the file).

  A number is a double; the embedding takes it as the rational it denotes (every
  finite double is one, and comparisons of doubles are exact). The arithmetic of the
  code rounds to doubles: the embedding computes a result only where the rounding
  leaves it exact, and says so where it does not (see \<open>double_times\<close>,
  \<open>double_plus\<close> and \<open>js_minus\<close>). Infinite numbers and date objects
  are not part of the embedding.

  The conversion of a string to a number is the engine's, not this repository's.
  A string value \<open>JStr s n\<close> therefore carries, next to its text \<open>s\<close>, the number
  \<open>n\<close> the engine converts it to; for a text made of decimal digits only the
  conversion is computed from the text and \<open>n\<close> is not consulted.
\<close>

datatype jsnum = NaN | Fin rat

datatype jsval = JUndefined | JNull | JBool bool | JNum rat | JStr string jsnum

definition is_digit :: "char \<Rightarrow> bool" where
  "is_digit c = (c \<in> set ''0123456789'')"

definition digit_val :: "char \<Rightarrow> nat" where
  "digit_val c = of_char c - 48"

text \<open>The value of a non-empty text of decimal digits (leading zeros allowed).\<close>

definition digits_value :: "string \<Rightarrow> nat option" where
  "digits_value s =
     (if s \<noteq> [] \<and> list_all is_digit s
      then Some (foldl (\<lambda>a c. 10 * a + digit_val c) 0 s) else None)"

text \<open>ToBoolean, as used by \<^verbatim>\<open>&&\<close>, \<^verbatim>\<open>||\<close> and \<^verbatim>\<open>if\<close>.\<close>

fun truthy :: "jsval \<Rightarrow> bool" where
  "truthy JUndefined = False"
| "truthy JNull = False"
| "truthy (JBool b) = b"
| "truthy (JNum r) = (r \<noteq> 0)"
| "truthy (JStr s n) = (s \<noteq> [])"

text \<open>ToNumber, as used by the relational operators, \<^verbatim>\<open>*\<close>, \<^verbatim>\<open>-\<close>,
  \<^verbatim>\<open>isNaN\<close> and \<^verbatim>\<open>Number\<close>.\<close>

fun to_number :: "jsval \<Rightarrow> jsnum" where
  "to_number JUndefined = NaN"
| "to_number JNull = Fin 0"
| "to_number (JBool b) = Fin (if b then 1 else 0)"
| "to_number (JNum r) = Fin r"
| "to_number (JStr s n) = (case digits_value s of Some k \<Rightarrow> Fin (of_nat k) | None \<Rightarrow> n)"

definition isNaN :: "jsval \<Rightarrow> bool" where
  "isNaN v = (to_number v = NaN)"

text \<open>\<^verbatim>\<open>v > k\<close>, \<^verbatim>\<open>v >= k\<close>, \<^verbatim>\<open>v < k\<close>, \<^verbatim>\<open>v <= k\<close> against a number literal
  \<open>k\<close>: the cell is converted to a number, and a comparison with NaN is false.\<close>

definition js_gt :: "jsval \<Rightarrow> rat \<Rightarrow> bool" where
  "js_gt v k = (case to_number v of NaN \<Rightarrow> False | Fin x \<Rightarrow> x > k)"

definition js_ge :: "jsval \<Rightarrow> rat \<Rightarrow> bool" where
  "js_ge v k = (case to_number v of NaN \<Rightarrow> False | Fin x \<Rightarrow> x \<ge> k)"

definition js_lt :: "jsval \<Rightarrow> rat \<Rightarrow> bool" where
  "js_lt v k = (case to_number v of NaN \<Rightarrow> False | Fin x \<Rightarrow> x < k)"

definition js_le :: "jsval \<Rightarrow> rat \<Rightarrow> bool" where
  "js_le v k = (case to_number v of NaN \<Rightarrow> False | Fin x \<Rightarrow> x \<le> k)"

text \<open>\<^verbatim>\<open>v === k\<close> against a number literal: no conversion, only a number equals
  a number.\<close>

definition strict_eq :: "jsval \<Rightarrow> rat \<Rightarrow> bool" where
  "strict_eq v k = (v = JNum k)"

text \<open>\<^verbatim>\<open>a || b\<close>.\<close>

definition js_or :: "jsval \<Rightarrow> jsval \<Rightarrow> jsval" where
  "js_or a b = (if truthy a then a else b)"

text \<open>
  \<^verbatim>\<open>a * b\<close> and \<^verbatim>\<open>a + b\<close> on numbers. NaN is absorbing. A whole number of
  magnitude at most \<open>2^53\<close> is a double, and an operation on doubles whose exact
  result is a double returns that result: where both operands and the exact result
  are such whole numbers the result is the exact one. In every other case the result
  is some double, an infinity or NaN that the embedding does not determine:
  \<open>None\<close>.
\<close>

definition safe_integer :: "rat \<Rightarrow> bool" where
  "safe_integer r = (frac r = 0 \<and> - (2 ^ 53) \<le> r \<and> r \<le> 2 ^ 53)"

fun double_times :: "jsnum \<Rightarrow> jsnum \<Rightarrow> jsnum option" where
  "double_times (Fin a) (Fin b) =
     (if safe_integer a \<and> safe_integer b \<and> safe_integer (a * b) then Some (Fin (a * b))
      else None)"
| "double_times _ _ = Some NaN"

fun double_plus :: "jsnum option \<Rightarrow> jsnum option \<Rightarrow> jsnum option" where
  "double_plus (Some NaN) _ = Some NaN"
| "double_plus _ (Some NaN) = Some NaN"
| "double_plus (Some (Fin a)) (Some (Fin b)) =
     (if safe_integer a \<and> safe_integer b \<and> safe_integer (a + b) then Some (Fin (a + b))
      else None)"
| "double_plus _ _ = None"

text \<open>
  \<^verbatim>\<open>a - b\<close> on numbers, used for \<^verbatim>\<open>crash.CRASH_MONTH - 1\<close> under the guard
  \<^verbatim>\<open>CRASH_MONTH >= 1 && CRASH_MONTH <= 12\<close> only: for a double between 1 and 12
  the difference with 1 is a double, so the subtraction is exact there.
\<close>

fun js_minus :: "jsnum \<Rightarrow> jsnum \<Rightarrow> jsnum" where
  "js_minus (Fin a) (Fin b) = Fin (a - b)"
| "js_minus _ _ = NaN"

section \<open>Rows\<close>

text \<open>
  A parsed row, with the columns the components read. A column the file does not
  have reads as \<open>JUndefined\<close>; \<open>others\<close> holds the remaining columns (for a row
  of the flag file, the flags themselves).
\<close>

record row =
  CRN :: jsval
  DEC_LAT :: jsval
  DEC_LONG :: jsval
  HOUR_OF_DAY :: jsval
  CRASH_MONTH :: jsval
  FATAL_COUNT :: jsval
  INJURY_COUNT :: jsval
  POSSIBLE_INJ_COUNT :: jsval
  others :: "(string \<times> jsval) list"

text \<open>The row of an empty object: every column absent.\<close>

definition no_columns :: row where
  "no_columns = \<lparr>CRN = JUndefined, DEC_LAT = JUndefined, DEC_LONG = JUndefined,
     HOUR_OF_DAY = JUndefined, CRASH_MONTH = JUndefined, FATAL_COUNT = JUndefined,
     INJURY_COUNT = JUndefined, POSSIBLE_INJ_COUNT = JUndefined, others = []\<rparr>"

section \<open>AnalyticsPanel: the severity distribution\<close>

text \<open>
  \<^verbatim>\<open>
  const processSeverityDistribution = (crashes) => {
    const distribution = {
      fatal: crashes.filter(c => c.FATAL_COUNT > 0).length,
      injury: crashes.filter(c => c.INJURY_COUNT > 0 && c.FATAL_COUNT === 0).length,
      property: crashes.filter(c => c.FATAL_COUNT === 0 && c.INJURY_COUNT === 0).length
    };
    return Object.entries(distribution).map(([type, count]) => ({ type, count }));
  };
  \<close>
  An entry \<^verbatim>\<open>{type, count}\<close> is the pair of its two fields.
\<close>

definition processSeverityDistribution :: "'a row_scheme list \<Rightarrow> (string \<times> nat) list" where
  "processSeverityDistribution crashes =
     [(''fatal'', length (filter (\<lambda>c. js_gt (FATAL_COUNT c) 0) crashes)),
      (''injury'',
         length (filter (\<lambda>c. js_gt (INJURY_COUNT c) 0 \<and> strict_eq (FATAL_COUNT c) 0) crashes)),
      (''property'',
         length (filter (\<lambda>c. strict_eq (FATAL_COUNT c) 0 \<and> strict_eq (INJURY_COUNT c) 0) crashes))]"

text \<open>The severity class the map gives a row (CrashMap.jsx, \<^verbatim>\<open>loadData\<close>):
  \<^verbatim>\<open>row.FATAL_COUNT > 0 ? 'FATAL' : row.INJURY_COUNT > 0 ? 'INJURY' : 'PDO'\<close>.\<close>

definition severity :: "'a row_scheme \<Rightarrow> string" where
  "severity r =
     (if js_gt (FATAL_COUNT r) 0 then ''FATAL''
      else if js_gt (INJURY_COUNT r) 0 then ''INJURY'' else ''PDO'')"

text \<open>A crash row whose two count cells are blank.\<close>

definition blank_counts :: row where
  "blank_counts = no_columns\<lparr>CRN := JNum 1, FATAL_COUNT := JNull, INJURY_COUNT := JNull\<rparr>"

section \<open>CrashMap: loading, joining and weighting\<close>

text \<open>
  Property keys. \<^verbatim>\<open>flagLookup[flag.CRN]\<close> and \<^verbatim>\<open>distribution[crash.HOUR_OF_DAY]\<close>
  turn the cell into a property key, a string. The key of a number is kept as the
  number, and a text that is the decimal numeral of a whole number below \<open>2^53\<close>
  (no leading zero) has the key of that number, as in the engine. A text spelling a
  negative or fractional number is kept apart from the number it spells; dynamic
  typing has turned such a text into the number wherever the number is between
  \<open>-2^53\<close> and \<open>2^53\<close>.
\<close>

datatype pkey = KNum rat | KStr string

definition canonical_numeral :: "string \<Rightarrow> nat option" where
  "canonical_numeral s =
     (case digits_value s of
        None \<Rightarrow> None
      | Some k \<Rightarrow> if (s = ''0'' \<or> hd s \<noteq> CHR ''0'') \<and> k < 2 ^ 53 then Some k else None)"

fun to_property_key :: "jsval \<Rightarrow> pkey" where
  "to_property_key JUndefined = KStr ''undefined''"
| "to_property_key JNull = KStr ''null''"
| "to_property_key (JBool b) = KStr (if b then ''true'' else ''false'')"
| "to_property_key (JNum r) = KNum r"
| "to_property_key (JStr s n) =
     (case canonical_numeral s of Some k \<Rightarrow> KNum (of_nat k) | None \<Rightarrow> KStr s)"

text \<open>
  \<^verbatim>\<open>
  const calculateWeight = (crash) => {
    return (crash.FATAL_COUNT || 0) * 10 +
           (crash.INJURY_COUNT || 0) * 5 +
           (crash.POSSIBLE_INJ_COUNT || 0) * 2 + 1;
  };
  \<close>
\<close>

definition calculateWeight :: "'a row_scheme \<Rightarrow> jsnum option" where
  "calculateWeight crash =
     double_plus
       (double_plus
          (double_plus
             (double_times (to_number (js_or (FATAL_COUNT crash) (JNum 0))) (Fin 10))
             (double_times (to_number (js_or (INJURY_COUNT crash) (JNum 0))) (Fin 5)))
          (double_times (to_number (js_or (POSSIBLE_INJ_COUNT crash) (JNum 0))) (Fin 2)))
       (Some (Fin 1))"

text \<open>
  The lookup object. \<^verbatim>\<open>flagLookup\<close> starts as \<^verbatim>\<open>{}\<close>, whose prototype is
  \<^verbatim>\<open>Object.prototype\<close>: an assignment under the key \<^verbatim>\<open>__proto__\<close> creates no
  property of the object's own but installs the assigned row as its prototype, and a
  read of a key the object does not own continues in the prototype.
\<close>

record flag_lookup =
  own :: "pkey \<rightharpoonup> row"
  proto :: "row option"

definition object_prototype_members :: "string list" where
  "object_prototype_members =
     [''constructor'', ''__defineGetter__'', ''__defineSetter__'', ''hasOwnProperty'',
      ''__lookupGetter__'', ''__lookupSetter__'', ''isPrototypeOf'',
      ''propertyIsEnumerable'', ''toString'', ''valueOf'', ''__proto__'',
      ''toLocaleString'']"

text \<open>
  \<^verbatim>\<open>
  const flagLookup = {};
  flagResults.data.forEach(flag => {
    if (flag.CRN) {
      flagLookup[flag.CRN] = flag;
    }
  });
  \<close>
\<close>

definition put_flag :: "row \<Rightarrow> flag_lookup \<Rightarrow> flag_lookup" where
  "put_flag flag lk =
     (if truthy (CRN flag)
      then (if to_property_key (CRN flag) = KStr ''__proto__''
            then lk\<lparr>proto := Some flag\<rparr>
            else lk\<lparr>own := (own lk)(to_property_key (CRN flag) \<mapsto> flag)\<rparr>)
      else lk)"

definition flagLookup :: "row list \<Rightarrow> flag_lookup" where
  "flagLookup flagRows = foldl (\<lambda>lk flag. put_flag flag lk) \<lparr>own = Map.empty, proto = None\<rparr> flagRows"

text \<open>
  The value of \<^verbatim>\<open>flagLookup[crash.CRN] || {}\<close>: a flag row, the empty object, a
  member inherited from \<^verbatim>\<open>Object.prototype\<close> (a function, so truthy), or whatever
  a row installed as prototype holds under the key (the embedding does not follow the
  read any further into that row).
\<close>

datatype flags_attr = Flag_row row | Empty_object | Inherited string | Through_prototype row

definition lookup_flags :: "flag_lookup \<Rightarrow> jsval \<Rightarrow> flags_attr" where
  "lookup_flags lk crn =
     (case own lk (to_property_key crn) of
        Some flag \<Rightarrow> Flag_row flag
      | None \<Rightarrow>
          (case proto lk of
             Some p \<Rightarrow> Through_prototype p
           | None \<Rightarrow>
               (case to_property_key crn of
                  KStr name \<Rightarrow>
                    if name \<in> set object_prototype_members then Inherited name else Empty_object
                | KNum r \<Rightarrow> Empty_object)))"

text \<open>
  \<^verbatim>\<open>
  const combinedData = crashResults.data
    .filter(crash => {
      const isValid = crash.DEC_LAT &&
                    crash.DEC_LONG &&
                    !isNaN(crash.DEC_LAT) &&
                    !isNaN(crash.DEC_LONG);
      return isValid;
    })
    .map(crash => ({
      ...crash,
      flags: flagLookup[crash.CRN] || {},
      weight: calculateWeight(crash),
      position: [Number(crash.DEC_LONG), Number(crash.DEC_LAT)]
    }));
  \<close>
\<close>

record enriched = row +
  flags :: flags_attr
  weight :: "jsnum option"
  position :: "jsnum \<times> jsnum"

definition isValid :: "'a row_scheme \<Rightarrow> bool" where
  "isValid crash =
     (truthy (DEC_LAT crash) \<and> truthy (DEC_LONG crash)
      \<and> \<not> isNaN (DEC_LAT crash) \<and> \<not> isNaN (DEC_LONG crash))"

definition enrich :: "flag_lookup \<Rightarrow> row \<Rightarrow> enriched" where
  "enrich lk crash =
     row.extend crash
       (enriched.fields (lookup_flags lk (CRN crash)) (calculateWeight crash)
          (to_number (DEC_LONG crash), to_number (DEC_LAT crash)))"

definition loadData :: "row list \<Rightarrow> row list \<Rightarrow> enriched list" where
  "loadData flagRows crashRows = map (enrich (flagLookup flagRows)) (filter isValid crashRows)"

text \<open>
  The loader of the map without flags (CrashMap.jsx):
  \<^verbatim>\<open>
  const validData = results.data
    .filter(row => row.DEC_LAT && row.DEC_LONG)
    .map(row => ({
      position: [row.DEC_LONG, row.DEC_LAT],
      severity: row.FATAL_COUNT > 0 ? 'FATAL' : row.INJURY_COUNT > 0 ? 'INJURY' : 'PDO',
      color: row.FATAL_COUNT > 0 ? [255, 0, 0] :
            row.INJURY_COUNT > 0 ? [255, 140, 0] : [255, 255, 0]
    }));
  \<close>
\<close>

record point =
  point_position :: "jsval \<times> jsval"
  point_severity :: string
  point_color :: "nat list"

definition to_point :: "row \<Rightarrow> point" where
  "to_point r =
     \<lparr>point_position = (DEC_LONG r, DEC_LAT r),
      point_severity = severity r,
      point_color = (if js_gt (FATAL_COUNT r) 0 then [255, 0, 0]
                     else if js_gt (INJURY_COUNT r) 0 then [255, 140, 0] else [255, 255, 0])\<rparr>"

definition loadData_points :: "row list \<Rightarrow> point list" where
  "loadData_points rows = map to_point (filter (\<lambda>r. truthy (DEC_LAT r) \<and> truthy (DEC_LONG r)) rows)"

section \<open>CrashMap: the time and severity filters\<close>

text \<open>
  \<^verbatim>\<open>
  data.filter(d => {
    if (selectedTimeRange === 'all') return true;
    const hour = d.HOUR_OF_DAY;
    switch(selectedTimeRange) {
      case 'morning':   return hour >= 6 && hour < 12;
      case 'afternoon': return hour >= 12 && hour < 18;
      case 'evening':   return hour >= 18 && hour < 24;
      case 'night':     return hour >= 0 && hour < 6;
      default:          return true;
    }
  }).filter(d => {
    if (selectedSeverity === 'all') return true;
    switch(selectedSeverity) {
      case 'fatal':  return d.FATAL_COUNT > 0;
      case 'injury': return d.INJURY_COUNT > 0;
      default:       return true;
    }
  })
  \<close>
\<close>

definition in_time_range :: "string \<Rightarrow> jsval \<Rightarrow> bool" where
  "in_time_range selectedTimeRange hour =
     (if selectedTimeRange = ''all'' then True
      else if selectedTimeRange = ''morning'' then js_ge hour 6 \<and> js_lt hour 12
      else if selectedTimeRange = ''afternoon'' then js_ge hour 12 \<and> js_lt hour 18
      else if selectedTimeRange = ''evening'' then js_ge hour 18 \<and> js_lt hour 24
      else if selectedTimeRange = ''night'' then js_ge hour 0 \<and> js_lt hour 6
      else True)"

definition has_severity :: "string \<Rightarrow> 'a row_scheme \<Rightarrow> bool" where
  "has_severity selectedSeverity d =
     (if selectedSeverity = ''all'' then True
      else if selectedSeverity = ''fatal'' then js_gt (FATAL_COUNT d) 0
      else if selectedSeverity = ''injury'' then js_gt (INJURY_COUNT d) 0
      else True)"

definition filteredData :: "'a row_scheme list \<Rightarrow> string \<Rightarrow> string \<Rightarrow> 'a row_scheme list" where
  "filteredData data selectedTimeRange selectedSeverity =
     filter (has_severity selectedSeverity)
       (filter (\<lambda>d. in_time_range selectedTimeRange (HOUR_OF_DAY d)) data)"

text \<open>The four time buckets of the selector.\<close>

definition time_buckets :: "string list" where
  "time_buckets = [''morning'', ''afternoon'', ''evening'', ''night'']"

section \<open>AnalyticsPanel: the hourly distribution and the monthly trends\<close>

text \<open>
  An array element is addressed by a property key that is the numeral of a whole
  number from 0 to \<open>2^32 - 2\<close>; any other key names an ordinary property of the
  array object, which \<^verbatim>\<open>map\<close> does not visit.
\<close>

definition whole_index :: "rat \<Rightarrow> nat option" where
  "whole_index r =
     (if frac r = 0 \<and> 0 \<le> r \<and> r < 2 ^ 32 - 1 then Some (nat \<lfloor>r\<rfloor>) else None)"

definition array_index :: "jsval \<Rightarrow> nat option" where
  "array_index v = (case to_property_key v of KNum r \<Rightarrow> whole_index r | KStr s \<Rightarrow> None)"

text \<open>\<^verbatim>\<open>n.toString()\<close> of a whole number, and \<^verbatim>\<open>s.padStart(targetLength, c)\<close>.\<close>

definition digit_char :: "nat \<Rightarrow> char" where
  "digit_char d = ''0123456789'' ! d"

fun show_nat :: "nat \<Rightarrow> string" where
  "show_nat n = (if n < 10 then [digit_char n] else show_nat (n div 10) @ [digit_char (n mod 10)])"

definition padStart :: "nat \<Rightarrow> char \<Rightarrow> string \<Rightarrow> string" where
  "padStart targetLength c s = replicate (targetLength - length s) c @ s"

text \<open>
  \<^verbatim>\<open>
  const processTimeDistribution = (crashes) => {
    const distribution = Array(24).fill(0);
    crashes.forEach(crash => {
      if (crash.HOUR_OF_DAY >= 0 && crash.HOUR_OF_DAY < 24) {
        distribution[crash.HOUR_OF_DAY]++;
      }
    });
    return distribution.map((count, hour) => ({
      hour: `${hour.toString().padStart(2, '0')}:00`,
      crashes: count
    }));
  };
  \<close>
  An entry \<^verbatim>\<open>{hour, crashes}\<close> is the pair of its two fields. Under the guard an
  array index is below 24 (\<open>hour_index_in_range\<close> below), so the update never
  leaves the 24 elements.
\<close>

definition hour_label :: "nat \<Rightarrow> string" where
  "hour_label hour = padStart 2 (CHR ''0'') (show_nat hour) @ '':00''"

definition count_hour :: "'a row_scheme \<Rightarrow> nat list \<Rightarrow> nat list" where
  "count_hour crash distribution =
     (if js_ge (HOUR_OF_DAY crash) 0 \<and> js_lt (HOUR_OF_DAY crash) 24
      then (case array_index (HOUR_OF_DAY crash) of
              Some i \<Rightarrow> distribution[i := distribution ! i + 1]
            | None \<Rightarrow> distribution)
      else distribution)"

definition processTimeDistribution :: "'a row_scheme list \<Rightarrow> (string \<times> nat) list" where
  "processTimeDistribution crashes =
     map (\<lambda>(hour, count). (hour_label hour, count))
       (enumerate 0
          (foldl (\<lambda>distribution crash. count_hour crash distribution) (replicate 24 0) crashes))"

text \<open>
  Dynamic typing turns every cell that spells a number between \<open>-2^53\<close> and
  \<open>2^53\<close> into a number, so a cell that is a text of decimal digits has a
  value of \<open>2^53\<close> or more.
\<close>

definition dyn_typed :: "jsval \<Rightarrow> bool" where
  "dyn_typed v =
     (case v of
        JStr s n \<Rightarrow> (case digits_value s of None \<Rightarrow> True | Some k \<Rightarrow> 2 ^ 53 \<le> k)
      | _ \<Rightarrow> True)"

text \<open>
  \<^verbatim>\<open>
  const processMonthlyTrends = (crashes) => {
    const monthlyData = Array(12).fill(0).map(() => ({ total: 0, fatal: 0, injury: 0 }));
    crashes.forEach(crash => {
      if (crash.CRASH_MONTH >= 1 && crash.CRASH_MONTH <= 12) {
        const idx = crash.CRASH_MONTH - 1;
        monthlyData[idx].total++;
        if (crash.FATAL_COUNT > 0) monthlyData[idx].fatal++;
        if (crash.INJURY_COUNT > 0) monthlyData[idx].injury++;
      }
    });
    return monthlyData.map((data, idx) => ({
      month: new Date(2023, idx).toLocaleString('default', { month: 'short' }),
      ...data
    }));
  };
  \<close>
  When \<^verbatim>\<open>idx\<close> is not a whole number, \<^verbatim>\<open>monthlyData[idx]\<close> is undefined and
  \<^verbatim>\<open>monthlyData[idx].total++\<close> throws a TypeError, which ends the function. The short
  name of a month is the locale's: the function takes it as \<open>short_month\<close>.
\<close>

record month_counts =
  total' :: nat
  fatal :: nat
  injury :: nat

datatype js_error = TypeError

definition element_index :: "jsnum \<Rightarrow> 'a list \<Rightarrow> nat option" where
  "element_index idx xs =
     (case idx of
        NaN \<Rightarrow> None
      | Fin r \<Rightarrow> (case whole_index r of
                    None \<Rightarrow> None
                  | Some i \<Rightarrow> if i < length xs then Some i else None))"

definition count_crash :: "'a row_scheme \<Rightarrow> month_counts \<Rightarrow> month_counts" where
  "count_crash crash m =
     \<lparr>total' = total' m + 1,
      fatal = (if js_gt (FATAL_COUNT crash) 0 then fatal m + 1 else fatal m),
      injury = (if js_gt (INJURY_COUNT crash) 0 then injury m + 1 else injury m)\<rparr>"

definition count_month :: "'a row_scheme \<Rightarrow> month_counts list \<Rightarrow> js_error + month_counts list" where
  "count_month crash monthlyData =
     (if js_ge (CRASH_MONTH crash) 1 \<and> js_le (CRASH_MONTH crash) 12
      then (case element_index (js_minus (to_number (CRASH_MONTH crash)) (Fin 1)) monthlyData of
              None \<Rightarrow> Inl TypeError
            | Some idx \<Rightarrow> Inr (monthlyData[idx := count_crash crash (monthlyData ! idx)]))
      else Inr monthlyData)"

fun forEach_month :: "'a row_scheme list \<Rightarrow> month_counts list \<Rightarrow> js_error + month_counts list" where
  "forEach_month [] monthlyData = Inr monthlyData"
| "forEach_month (crash # crashes) monthlyData =
     (case count_month crash monthlyData of
        Inl e \<Rightarrow> Inl e
      | Inr monthlyData' \<Rightarrow> forEach_month crashes monthlyData')"

definition processMonthlyTrends ::
  "(nat \<Rightarrow> string) \<Rightarrow> 'a row_scheme list \<Rightarrow> js_error + (string \<times> month_counts) list" where
  "processMonthlyTrends short_month crashes =
     (case forEach_month crashes (replicate 12 \<lparr>total' = 0, fatal = 0, injury = 0\<rparr>) of
        Inl e \<Rightarrow> Inl e
      | Inr monthlyData \<Rightarrow>
          Inr (map (\<lambda>(idx, data). (short_month idx, data)) (enumerate 0 monthlyData)))"

text \<open>The short month names of an English locale.\<close>

definition short_month_en :: "nat \<Rightarrow> string" where
  "short_month_en idx =
     [''Jan'', ''Feb'', ''Mar'', ''Apr'', ''May'', ''Jun'',
      ''Jul'', ''Aug'', ''Sep'', ''Oct'', ''Nov'', ''Dec''] ! idx"

text \<open>A month cell that, when it passes the guard, is a whole number.\<close>

definition whole_month :: "jsval \<Rightarrow> bool" where
  "whole_month v =
     (case to_number v of NaN \<Rightarrow> True | Fin r \<Rightarrow> \<not> (1 \<le> r \<and> r \<le> 12) \<or> frac r = 0)"

section \<open>PredictionsContainer: the 24-hour batch\<close>

text \<open>
  \<^verbatim>\<open>
  const hourlyPredictions = await Promise.all(
    Array.from({ length: 24 }, async (_, i) => {
      const timestamp = new Date();
      timestamp.setHours(timestamp.getHours() + i);
      const hourResponse = await axios.post('/api/v1/predict/risk', {
        latitude: location.latitude,
        longitude: location.longitude,
        timestamp: timestamp.toISOString()
      });
      return { ...hourResponse.data, hour: timestamp.getHours() };
    })
  );
  \<close>
  Callback \<open>i\<close> reads the clock with \<^verbatim>\<open>new Date()\<close>: \<open>readings i\<close> is the time
  value it gets, in milliseconds since the epoch. \<open>post i\<close> is the outcome of the
  request of callback \<open>i\<close>: the response data, or the error the request fails with.

  \<^verbatim>\<open>Promise.all\<close> stores the value of promise \<open>i\<close> at index \<open>i\<close>
  when it settles, rejects with the first rejection, and is fulfilled with the
  array once every promise has a value. \<open>arrivals\<close> lists the promises in the
  order in which they settle.
\<close>

text \<open>
  The date arithmetic of the engine (ECMAScript, Date objects). The host's time zone
  is a parameter: \<open>offset_utc z t\<close> is the local offset in force at the instant
  \<open>t\<close>, and \<open>offset_local z t\<close> the offset by which the local time value \<open>t\<close>
  is read back as an instant (for a local time that a clock change skips or repeats,
  the host decides).
  \<^item> \<^verbatim>\<open>getHours()\<close> is \<open>HourFromTime (LocalTime t)\<close>.
  \<^item> \<^verbatim>\<open>setHours(hour)\<close> keeps the day, the minutes, the seconds and the milliseconds
    of the local time, replaces the hour (an hour past 23 runs into the following
    days), reads the result back as an instant and clips it to the range of Date;
    outside the range the date is invalid.
\<close>

definition msPerHour :: int where
  "msPerHour = 3600000"

definition msPerDay :: int where
  "msPerDay = 86400000"

record zone =
  offset_utc :: "int \<Rightarrow> int"
  offset_local :: "int \<Rightarrow> int"

definition LocalTime :: "zone \<Rightarrow> int \<Rightarrow> int" where
  "LocalTime z t = t + offset_utc z t"

definition UTC :: "zone \<Rightarrow> int \<Rightarrow> int" where
  "UTC z t = t - offset_local z t"

definition HourFromTime :: "int \<Rightarrow> int" where
  "HourFromTime t = (t div msPerHour) mod 24"

definition TimeClip :: "int \<Rightarrow> int option" where
  "TimeClip t = (if 8640000000000000 < \<bar>t\<bar> then None else Some t)"

definition getHours :: "zone \<Rightarrow> int \<Rightarrow> int" where
  "getHours z t = HourFromTime (LocalTime z t)"

definition setHours :: "zone \<Rightarrow> int \<Rightarrow> int \<Rightarrow> int option" where
  "setHours z t hour =
     (let local = LocalTime z t;
          time = hour * msPerHour + local mod msPerHour;
          date = (local div msPerDay) * msPerDay + time
      in TimeClip (UTC z date))"

record 'a prediction =
  data :: 'a
  hour :: nat

datatype ('e, 'a) promise = Pending | Rejected 'e | Fulfilled 'a

text \<open>
  What a callback rejects with: the RangeError of \<^verbatim>\<open>toISOString\<close> on an invalid date,
  or the error of its request.
\<close>

datatype 'e rejection = RangeError | Request_failed 'e

definition hour_request ::
  "zone \<Rightarrow> (nat \<Rightarrow> int) \<Rightarrow> (nat \<Rightarrow> 'e + 'a) \<Rightarrow> nat \<Rightarrow> 'e rejection + 'a prediction" where
  "hour_request z readings post i =
     (case setHours z (readings i) (getHours z (readings i) + int i) of
        None \<Rightarrow> Inl RangeError
      | Some timestamp \<Rightarrow>
          (case post i of
             Inl err \<Rightarrow> Inl (Request_failed err)
           | Inr response_data \<Rightarrow>
               Inr \<lparr>data = response_data, hour = nat (getHours z timestamp)\<rparr>))"

fun settle :: "(nat \<Rightarrow> 'e + 'v) \<Rightarrow> nat list \<Rightarrow> 'v option list \<Rightarrow> 'e + 'v option list" where
  "settle p [] values = Inr values"
| "settle p (i # arrivals) values =
     (case p i of
        Inl err \<Rightarrow> Inl err
      | Inr v \<Rightarrow> settle p arrivals (values[i := Some v]))"

definition promise_all :: "nat \<Rightarrow> (nat \<Rightarrow> 'e + 'v) \<Rightarrow> nat list \<Rightarrow> ('e, 'v list) promise" where
  "promise_all n p arrivals =
     (case settle p arrivals (replicate n None) of
        Inl err \<Rightarrow> Rejected err
      | Inr values \<Rightarrow> (case those values of None \<Rightarrow> Pending | Some vs \<Rightarrow> Fulfilled vs))"

definition hourlyPredictions ::
  "zone \<Rightarrow> (nat \<Rightarrow> int) \<Rightarrow> (nat \<Rightarrow> 'e + 'a) \<Rightarrow> nat list
     \<Rightarrow> ('e rejection, 'a prediction list) promise" where
  "hourlyPredictions z readings post arrivals =
     promise_all 24 (hour_request z readings post) arrivals"

text \<open>The hour tags of a fulfilled batch, in array order.\<close>

definition hour_tags :: "('e, 'a prediction list) promise \<Rightarrow> nat list" where
  "hour_tags p = (case p of Fulfilled ps \<Rightarrow> map hour ps | _ \<Rightarrow> [])"

text \<open>A service that answers request \<open>i\<close> with the number \<open>i\<close>.\<close>

definition echo_service :: "nat \<Rightarrow> string + nat" where
  "echo_service i = Inr i"



definition spring_forward_zone :: zone where
  "spring_forward_zone =
     \<lparr>offset_utc = (\<lambda>t. if t < 1772953200000 then - 18000000 else - 14400000),
      offset_local = (\<lambda>t. if t < 1772938800000 then - 18000000 else - 14400000)\<rparr>"



definition half_past_midnight :: "nat \<Rightarrow> int" where
  "half_past_midnight i = 1772947800000"

section \<open>Reference predicates and sample rows\<close>

text \<open>A coordinate cell the loader with flags accepts: a number other than 0,
  \<^verbatim>\<open>true\<close>, or a non-empty text that converts to a number.\<close>

definition usable_coordinate :: "jsval \<Rightarrow> bool" where
  "usable_coordinate v =
     (case v of
        JUndefined \<Rightarrow> False
      | JNull \<Rightarrow> False
      | JBool b \<Rightarrow> b
      | JNum r \<Rightarrow> r \<noteq> 0
      | JStr s n \<Rightarrow> s \<noteq> [] \<and> to_number (JStr s n) \<noteq> NaN)"

text \<open>A coordinate cell the loader without flags accepts: a number other than 0,
  \<^verbatim>\<open>true\<close>, or any non-empty text.\<close>

definition nonblank_coordinate :: "jsval \<Rightarrow> bool" where
  "nonblank_coordinate v =
     (case v of
        JUndefined \<Rightarrow> False
      | JNull \<Rightarrow> False
      | JBool b \<Rightarrow> b
      | JNum r \<Rightarrow> r \<noteq> 0
      | JStr s n \<Rightarrow> s \<noteq> [])"

text \<open>A count cell that is a whole number, or is falsy (absent, blank,
  \<^verbatim>\<open>false\<close>), and the count it stands for.\<close>

definition whole_or_falsy :: "jsval \<Rightarrow> bool" where
  "whole_or_falsy v = (case v of JNum r \<Rightarrow> frac r = 0 | _ \<Rightarrow> \<not> truthy v)"

definition count_or_zero :: "jsval \<Rightarrow> rat" where
  "count_or_zero v = (case v of JNum r \<Rightarrow> r | _ \<Rightarrow> 0)"

text \<open>A count cell that is truthy and converts to NaN: a text that is not a number.\<close>

definition not_a_number :: "jsval \<Rightarrow> bool" where
  "not_a_number v = (truthy v \<and> isNaN v)"

text \<open>The flag rows that match a CRN cell: their own CRN is truthy and has the
  same property key.\<close>

definition matching_flags :: "row list \<Rightarrow> jsval \<Rightarrow> row list" where
  "matching_flags flagRows crn =
     filter (\<lambda>flag. truthy (CRN flag) \<and> to_property_key (CRN flag) = to_property_key crn) flagRows"

definition sample_crash :: row where
  "sample_crash = no_columns\<lparr>CRN := JNum 2023000001, DEC_LAT := JNum (206 / 5),
     DEC_LONG := JNum (- 771 / 10), HOUR_OF_DAY := JNum 8, CRASH_MONTH := JNum 3,
     FATAL_COUNT := JNum 1, INJURY_COUNT := JNum 2, POSSIBLE_INJ_COUNT := JNull\<rparr>"

definition zero_latitude :: row where
  "zero_latitude = sample_crash\<lparr>DEC_LAT := JNum 0\<rparr>"

definition zero_longitude :: row where
  "zero_longitude = sample_crash\<lparr>CRN := JNum 2023000002, DEC_LONG := JNum 0\<rparr>"

definition text_count :: row where
  "text_count = no_columns\<lparr>FATAL_COUNT := JStr ''unknown'' NaN\<rparr>"

definition zero_crn_crash :: row where
  "zero_crn_crash = sample_crash\<lparr>CRN := JNum 0\<rparr>"

definition zero_crn_flag :: row where
  "zero_crn_flag = no_columns\<lparr>CRN := JNum 0, others := [(''INTERSTATE'', JNum 1)]\<rparr>"

definition sample_flag :: row where
  "sample_flag = no_columns\<lparr>CRN := JNum 2023000001, others := [(''INTERSTATE'', JNum 1)]\<rparr>"

definition sample_flag_again :: row where
  "sample_flag_again = no_columns\<lparr>CRN := JNum 2023000001, others := [(''INTERSTATE'', JNum 0)]\<rparr>"

definition hour_samples :: "row list" where
  "hour_samples =
     [sample_crash, sample_crash\<lparr>HOUR_OF_DAY := JNull\<rparr>, sample_crash\<lparr>HOUR_OF_DAY := JNum 23\<rparr>,
      sample_crash\<lparr>HOUR_OF_DAY := JNum (17 / 2)\<rparr>, sample_crash\<lparr>HOUR_OF_DAY := JNum 24\<rparr>,
      sample_crash\<lparr>HOUR_OF_DAY := JStr ''N/A'' NaN\<rparr>]"

text \<open>A month bucket whose fatal and injury counters do not exceed its total, and
  the bucket after one crash that is both fatal and injurious.\<close>

definition bounded :: "month_counts \<Rightarrow> bool" where
  "bounded b = (fatal b \<le> total' b \<and> injury b \<le> total' b)"

definition trend_step :: "string \<times> month_counts \<Rightarrow> string \<times> month_counts" where
  "trend_step e =
     (fst e, \<lparr>total' = total' (snd e) + 1, fatal = fatal (snd e) + 1, injury = injury (snd e) + 1\<rparr>)"

text \<open>The trends of a year with one crash in March, fatal and injurious, and of
  a year with two of them.\<close>

definition no_crashes :: month_counts where
  "no_crashes = \<lparr>total' = 0, fatal = 0, injury = 0\<rparr>"

definition march_once :: "(string \<times> month_counts) list" where
  "march_once =
     [(''Jan'', no_crashes), (''Feb'', no_crashes),
      (''Mar'', \<lparr>total' = 1, fatal = 1, injury = 1\<rparr>), (''Apr'', no_crashes),
      (''May'', no_crashes), (''Jun'', no_crashes), (''Jul'', no_crashes), (''Aug'', no_crashes),
      (''Sep'', no_crashes), (''Oct'', no_crashes), (''Nov'', no_crashes), (''Dec'', no_crashes)]"

definition march_twice :: "(string \<times> month_counts) list" where
  "march_twice =
     [(''Jan'', no_crashes), (''Feb'', no_crashes),
      (''Mar'', \<lparr>total' = 2, fatal = 2, injury = 2\<rparr>), (''Apr'', no_crashes),
      (''May'', no_crashes), (''Jun'', no_crashes), (''Jul'', no_crashes), (''Aug'', no_crashes),
      (''Sep'', no_crashes), (''Oct'', no_crashes), (''Nov'', no_crashes), (''Dec'', no_crashes)]"

section \<open>Properties\<close>

subsection \<open>Values, keys and indices\<close>

lemma js_gt_JNum [simp]: "js_gt (JNum r) k = (r > k)"
  by (simp add: js_gt_def)

lemma strict_eq_JNum [simp]: "strict_eq (JNum r) k = (r = k)"
  by (simp add: strict_eq_def)

lemma not_isNaN_Fin: "\<not> isNaN v \<Longrightarrow> \<exists>x. to_number v = Fin x"
  by (cases "to_number v") (auto simp: isNaN_def)

lemma whole_index_Some: "whole_index r = Some i \<Longrightarrow> r = of_nat i"
proof -
  assume a: "whole_index r = Some i"
  then have f: "frac r = 0" and nn: "0 \<le> r" and i: "i = nat \<lfloor>r\<rfloor>"
    by (auto simp: whole_index_def split: if_splits)
  from f have "r = of_int \<lfloor>r\<rfloor>" by (simp add: frac_def)
  moreover from nn have "0 \<le> \<lfloor>r\<rfloor>" by simp
  ultimately show ?thesis using i
    by (metis of_nat_nat)
qed

lemma whole_index_of_nat: "i < 24 \<Longrightarrow> whole_index (of_nat i) = Some i"
proof -
  assume "i < 24"
  then have "(of_nat i :: rat) < of_nat 24" by (simp only: of_nat_less_iff)
  then have "(of_nat i :: rat) < 2 ^ 32 - 1" by simp
  then show ?thesis by (simp add: whole_index_def)
qed

text \<open>Under the guard of \<^verbatim>\<open>processTimeDistribution\<close> an array index is one of the 24
  elements.\<close>

lemma hour_index_in_range:
  assumes "js_ge v 0" and "js_lt v 24" and "array_index v = Some i"
  shows "i < 24"
proof -
  from assms(3) obtain r where k: "to_property_key v = KNum r" and w: "whole_index r = Some i"
    by (auto simp: array_index_def split: pkey.splits)
  from w have r: "r = of_nat i" by (rule whole_index_Some)
  have "to_number v = Fin r"
  proof (cases v)
    case (JStr s n)
    with k obtain m where m: "canonical_numeral s = Some m" "r = of_nat m"
      by (auto split: option.splits)
    then have "digits_value s = Some m"
      by (auto simp: canonical_numeral_def split: option.splits if_splits)
    with JStr m show ?thesis by simp
  qed (use k in \<open>auto split: if_splits\<close>)
  with assms(2) have "r < 24" by (simp add: js_lt_def)
  with r have "(of_nat i :: rat) < of_nat 24" by simp
  then show ?thesis by (simp only: of_nat_less_iff)
qed

lemma enrich_fields [simp]:
  "position (enrich lk c) = (to_number (DEC_LONG c), to_number (DEC_LAT c))"
  "flags (enrich lk c) = lookup_flags lk (CRN c)"
  "weight (enrich lk c) = calculateWeight c"
  "DEC_LAT (enrich lk c) = DEC_LAT c"
  "DEC_LONG (enrich lk c) = DEC_LONG c"
  "CRN (enrich lk c) = CRN c"
  "HOUR_OF_DAY (enrich lk c) = HOUR_OF_DAY c"
  "FATAL_COUNT (enrich lk c) = FATAL_COUNT c"
  "INJURY_COUNT (enrich lk c) = INJURY_COUNT c"
  by (simp_all add: enrich_def row.defs enriched.defs)

subsection \<open>The severity distribution\<close>

text \<open>
  On rows whose two count cells hold numbers that are not negative, the three
  buckets are exclusive and every row is in one of them.
\<close>

lemma severity_buckets_numeric:
  assumes "\<forall>c\<in>set crashes. \<exists>f i. FATAL_COUNT c = JNum f \<and> INJURY_COUNT c = JNum i \<and> 0 \<le> f \<and> 0 \<le> i"
  shows "sum_list (map snd (processSeverityDistribution crashes)) = length crashes"
  using assms
proof (induction crashes)
  case Nil
  then show ?case by (simp add: processSeverityDistribution_def)
next
  case (Cons c cs)
  then obtain f i where c: "FATAL_COUNT c = JNum f" "INJURY_COUNT c = JNum i" "0 \<le> f" "0 \<le> i"
    by auto
  from Cons have "sum_list (map snd (processSeverityDistribution cs)) = length cs"
    by simp
  with c show ?case
    by (auto simp: processSeverityDistribution_def)
qed

text \<open>
  C1. The three buckets of the severity distribution should sum to the number of
  records, also for records whose count cells are absent. On a dataset of one row
  with blank \<^verbatim>\<open>FATAL_COUNT\<close> and \<^verbatim>\<open>INJURY_COUNT\<close> the three counts are 0, 0 and 0:
  \<^verbatim>\<open>null > 0\<close> and \<^verbatim>\<open>null === 0\<close> are both false, so the row is in no bucket,
  while the map's own classification of the same row is property-damage-only.
\<close>

theorem severity_distribution_blank_counts:
  "processSeverityDistribution [blank_counts] = [(''fatal'', 0), (''injury'', 0), (''property'', 0)]
   \<and> sum_list (map snd (processSeverityDistribution [blank_counts])) < length [blank_counts]
   \<and> severity blank_counts = ''PDO''"
  by (simp add: processSeverityDistribution_def blank_counts_def no_columns_def
      js_gt_def strict_eq_def severity_def)

subsection \<open>Coordinates\<close>

lemma usable_iff: "usable_coordinate v \<longleftrightarrow> truthy v \<and> \<not> isNaN v"
  by (cases v) (auto simp: usable_coordinate_def isNaN_def)

lemma nonblank_iff: "nonblank_coordinate v \<longleftrightarrow> truthy v"
  by (cases v) (auto simp: nonblank_coordinate_def)

lemma isValid_usable:
  "isValid r \<longleftrightarrow> usable_coordinate (DEC_LAT r) \<and> usable_coordinate (DEC_LONG r)"
  by (auto simp: isValid_def usable_iff)

text \<open>
  C2 (as amended). A row is in the loaded set exactly when both coordinate cells
  are usable: a number other than 0, \<^verbatim>\<open>true\<close>, or a non-empty text that converts
  to a number (the loader without flags accepts any non-empty text). So every
  enriched record has a position of two numbers and two truthy coordinate cells, and
  a row whose coordinate is blank, absent or 0 is dropped.
\<close>

theorem coordinate_validity:
  "loadData flagRows crashRows =
     map (enrich (flagLookup flagRows))
       (filter (\<lambda>r. usable_coordinate (DEC_LAT r) \<and> usable_coordinate (DEC_LONG r)) crashRows)
   \<and> loadData_points crashRows =
     map to_point
       (filter (\<lambda>r. nonblank_coordinate (DEC_LAT r) \<and> nonblank_coordinate (DEC_LONG r)) crashRows)
   \<and> (\<forall>e\<in>set (loadData flagRows crashRows).
        \<exists>x y. position e = (Fin x, Fin y) \<and> truthy (DEC_LAT e) \<and> truthy (DEC_LONG e))"
proof -
  have a: "loadData flagRows crashRows =
     map (enrich (flagLookup flagRows))
       (filter (\<lambda>r. usable_coordinate (DEC_LAT r) \<and> usable_coordinate (DEC_LONG r)) crashRows)"
    by (simp add: loadData_def isValid_usable cong: filter_cong)
  have b: "loadData_points crashRows =
     map to_point
       (filter (\<lambda>r. nonblank_coordinate (DEC_LAT r) \<and> nonblank_coordinate (DEC_LONG r)) crashRows)"
    by (simp add: loadData_points_def nonblank_iff)
  have c: "\<exists>x y. position e = (Fin x, Fin y) \<and> truthy (DEC_LAT e) \<and> truthy (DEC_LONG e)"
    if "e \<in> set (loadData flagRows crashRows)" for e
  proof -
    from that obtain r where r: "isValid r" "e = enrich (flagLookup flagRows) r"
      by (auto simp: loadData_def)
    then show ?thesis
      using not_isNaN_Fin [of "DEC_LAT r"] not_isNaN_Fin [of "DEC_LONG r"]
      by (auto simp: isValid_def)
  qed
  from a b c show ?thesis by blast
qed

theorem coordinate_validity_witness:
  "map position (loadData [] [sample_crash, zero_latitude]) = [(Fin (- 771 / 10), Fin (206 / 5))]
   \<and> map point_position (loadData_points [sample_crash, zero_latitude])
       = [(JNum (- 771 / 10), JNum (206 / 5))]"
  using coordinate_validity [of "[]" "[sample_crash, zero_latitude]"]
  by (simp add: zero_latitude_def sample_crash_def no_columns_def usable_coordinate_def
      nonblank_coordinate_def to_point_def)

text \<open>A row whose latitude is the number 0 has both coordinates present and
  numeric, and neither loader keeps it.\<close>

theorem zero_latitude_dropped:
  "DEC_LAT zero_latitude = JNum 0 \<and> DEC_LONG zero_latitude = JNum (- 771 / 10)
   \<and> loadData [] [zero_latitude] = [] \<and> loadData_points [zero_latitude] = []"
  by (simp add: zero_latitude_def sample_crash_def no_columns_def loadData_def
      loadData_points_def isValid_def)

text \<open>
  C10. A row whose \<^verbatim>\<open>DEC_LAT\<close> or \<^verbatim>\<open>DEC_LONG\<close> is the number 0 is excluded from
  the loaded dataset of either map: the dataset is the one loaded without the row.
\<close>

theorem zero_coordinate_excluded:
  assumes "DEC_LAT r = JNum 0 \<or> DEC_LONG r = JNum 0"
  shows "loadData flagRows (before @ r # after) = loadData flagRows (before @ after)
         \<and> loadData_points (before @ r # after) = loadData_points (before @ after)"
  using assms by (auto simp: loadData_def loadData_points_def isValid_def)

theorem zero_coordinate_excluded_witness:
  "DEC_LONG zero_longitude = JNum 0
   \<and> loadData [] ([sample_crash] @ zero_longitude # []) = loadData [] [sample_crash]
   \<and> loadData_points ([sample_crash] @ zero_longitude # []) = loadData_points [sample_crash]"
  using zero_coordinate_excluded [of zero_longitude "[]" "[sample_crash]" "[]"]
  by (simp add: zero_longitude_def)

subsection \<open>The weight\<close>

lemma counted:
  "whole_or_falsy v \<Longrightarrow> to_number (js_or v (JNum 0)) = Fin (count_or_zero v)"
  by (cases v) (auto simp: whole_or_falsy_def count_or_zero_def js_or_def)

lemma whole_count: "whole_or_falsy v \<Longrightarrow> count_or_zero v \<in> \<int>"
  by (cases v) (auto simp: whole_or_falsy_def count_or_zero_def frac_eq_0_iff)

lemma safe_integerI: "r \<in> \<int> \<Longrightarrow> \<bar>r\<bar> \<le> 2 ^ 53 \<Longrightarrow> safe_integer r"
  by (auto simp: safe_integer_def frac_eq_0_iff)

lemma not_a_number_NaN: "not_a_number v \<Longrightarrow> to_number (js_or v (JNum 0)) = NaN"
  by (simp add: not_a_number_def js_or_def isNaN_def)

lemma double_plus_NaN_right [simp]: "double_plus x (Some NaN) = Some NaN"
proof (cases x)
  case None
  then show ?thesis by simp
next
  case (Some n)
  then show ?thesis by (cases n) simp_all
qed

lemma weight_of_whole_counts:
  assumes "whole_or_falsy (FATAL_COUNT crash)" and "whole_or_falsy (INJURY_COUNT crash)"
    and "whole_or_falsy (POSSIBLE_INJ_COUNT crash)"
    and "\<bar>count_or_zero (FATAL_COUNT crash)\<bar> * 10 + \<bar>count_or_zero (INJURY_COUNT crash)\<bar> * 5
         + \<bar>count_or_zero (POSSIBLE_INJ_COUNT crash)\<bar> * 2 + 1 \<le> 2 ^ 53"
  shows "calculateWeight crash =
           Some (Fin (count_or_zero (FATAL_COUNT crash) * 10 + count_or_zero (INJURY_COUNT crash) * 5
                      + count_or_zero (POSSIBLE_INJ_COUNT crash) * 2 + 1))"
proof -
  let ?f = "count_or_zero (FATAL_COUNT crash)"
  let ?i = "count_or_zero (INJURY_COUNT crash)"
  let ?p = "count_or_zero (POSSIBLE_INJ_COUNT crash)"
  have w: "?f \<in> \<int>" "?i \<in> \<int>" "?p \<in> \<int>"
    using assms(1-3) by (simp_all add: whole_count)
  have lit: "safe_integer 10" "safe_integer 5" "safe_integer 2" "safe_integer 1"
    by (simp_all add: safe_integer_def)
  have s1: "safe_integer ?f" "safe_integer ?i" "safe_integer ?p"
    using w assms(4) by (auto intro!: safe_integerI)
  have s2: "safe_integer (?f * 10)" "safe_integer (?i * 5)" "safe_integer (?p * 2)"
    using w assms(4) by (auto intro!: safe_integerI simp: abs_mult)
  have s3: "safe_integer (?f * 10 + ?i * 5)"
    using w assms(4) by (intro safe_integerI) (auto simp: abs_mult intro!: Ints_add Ints_mult)
  have s4: "safe_integer (?f * 10 + ?i * 5 + ?p * 2)"
    using w assms(4) by (intro safe_integerI) (auto simp: abs_mult intro!: Ints_add Ints_mult)
  have s5: "safe_integer (?f * 10 + ?i * 5 + ?p * 2 + 1)"
    using w assms(4) by (intro safe_integerI) (auto simp: abs_mult intro!: Ints_add Ints_mult)
  show ?thesis
    using assms(1-3) lit s1 s2 s3 s4 s5 by (simp add: calculateWeight_def counted)
qed

lemma weight_of_text_count:
  assumes "not_a_number (FATAL_COUNT crash) \<or> not_a_number (INJURY_COUNT crash)
           \<or> not_a_number (POSSIBLE_INJ_COUNT crash)"
  shows "calculateWeight crash = Some NaN"
proof -
  from assms show ?thesis
    by (auto simp: calculateWeight_def not_a_number_NaN)
qed

text \<open>
  C9 (as amended). For a record whose three count cells are each a whole number or
  falsy (absent, blank, \<^verbatim>\<open>false\<close>), with
  \<^verbatim>\<open>|FATAL_COUNT|*10 + |INJURY_COUNT|*5 + |POSSIBLE_INJ_COUNT|*2 + 1\<close> at most
  \<open>2^53\<close>, the weight is
  \<^verbatim>\<open>FATAL_COUNT*10 + INJURY_COUNT*5 + POSSIBLE_INJ_COUNT*2 + 1\<close> with a falsy cell
  counted as 0, and it is at least 1 when the counts are not negative. For a record
  with a count cell that is truthy and converts to NaN the weight is NaN.
\<close>

theorem calculateWeight_formula:
  "(whole_or_falsy (FATAL_COUNT crash) \<and> whole_or_falsy (INJURY_COUNT crash)
      \<and> whole_or_falsy (POSSIBLE_INJ_COUNT crash)
      \<and> \<bar>count_or_zero (FATAL_COUNT crash)\<bar> * 10 + \<bar>count_or_zero (INJURY_COUNT crash)\<bar> * 5
          + \<bar>count_or_zero (POSSIBLE_INJ_COUNT crash)\<bar> * 2 + 1 \<le> 2 ^ 53
    \<longrightarrow> calculateWeight crash =
           Some (Fin (count_or_zero (FATAL_COUNT crash) * 10 + count_or_zero (INJURY_COUNT crash) * 5
                      + count_or_zero (POSSIBLE_INJ_COUNT crash) * 2 + 1))
         \<and> (0 \<le> count_or_zero (FATAL_COUNT crash) \<and> 0 \<le> count_or_zero (INJURY_COUNT crash)
              \<and> 0 \<le> count_or_zero (POSSIBLE_INJ_COUNT crash)
            \<longrightarrow> (\<exists>w. calculateWeight crash = Some (Fin w) \<and> 1 \<le> w)))
   \<and> (not_a_number (FATAL_COUNT crash) \<or> not_a_number (INJURY_COUNT crash)
        \<or> not_a_number (POSSIBLE_INJ_COUNT crash)
      \<longrightarrow> calculateWeight crash = Some NaN)"
  using weight_of_whole_counts [of crash] weight_of_text_count [of crash] by auto

theorem calculateWeight_formula_witness:
  "calculateWeight sample_crash = Some (Fin 21)
   \<and> calculateWeight (sample_crash\<lparr>INJURY_COUNT := JStr ''N/A'' NaN\<rparr>) = Some NaN"
  using calculateWeight_formula [of sample_crash]
    calculateWeight_formula [of "sample_crash\<lparr>INJURY_COUNT := JStr ''N/A'' NaN\<rparr>"]
  by (simp add: sample_crash_def no_columns_def whole_or_falsy_def count_or_zero_def
      not_a_number_def isNaN_def digits_value_def is_digit_def)

text \<open>A count cell holding a text that is not a number is not counted as 0: the
  weight is NaN, not 1.\<close>

theorem calculateWeight_text_count:
  "calculateWeight text_count = Some NaN
   \<and> calculateWeight text_count \<noteq> Some (Fin (0 * 10 + 0 * 5 + 0 * 2 + 1))"
  by (simp add: calculateWeight_def text_count_def no_columns_def js_or_def digits_value_def
      is_digit_def)

subsection \<open>The filters\<close>

text \<open>
  C4. A record with \<^verbatim>\<open>INJURY_COUNT > 0\<close> passes the severity filter with selector
  \<^verbatim>\<open>'injury'\<close> whatever its \<^verbatim>\<open>FATAL_COUNT\<close>: if it passes the time filter it is in
  the filtered data.
\<close>

theorem injury_filter_inclusive:
  assumes "d \<in> set loaded" and "js_gt (INJURY_COUNT d) 0"
    and "in_time_range selectedTimeRange (HOUR_OF_DAY d)"
  shows "d \<in> set (filteredData loaded selectedTimeRange ''injury'')"
  using assms by (simp add: filteredData_def has_severity_def)

theorem injury_filter_inclusive_witness:
  "js_gt (FATAL_COUNT sample_crash) 0 \<and> js_gt (INJURY_COUNT sample_crash) 0
   \<and> enrich (flagLookup []) sample_crash
       \<in> set (filteredData (loadData [] [sample_crash]) ''evening'' ''injury'' @
              filteredData (loadData [] [sample_crash]) ''morning'' ''injury'')"
proof -
  let ?e = "enrich (flagLookup []) sample_crash"
  have l: "loadData [] [sample_crash] = [?e]"
    by (simp add: loadData_def isValid_def isNaN_def sample_crash_def no_columns_def)
  have m: "?e \<in> set (loadData [] [sample_crash])"
    by (simp add: l)
  have i: "js_gt (INJURY_COUNT ?e) 0"
    by (simp add: sample_crash_def no_columns_def)
  have t: "in_time_range ''morning'' (HOUR_OF_DAY ?e)"
    by (simp add: sample_crash_def no_columns_def in_time_range_def js_ge_def js_lt_def)
  from injury_filter_inclusive [OF m i t] show ?thesis
    by (simp add: sample_crash_def no_columns_def)
qed

lemma time_ranges:
  assumes "to_number cell = Fin x"
  shows "in_time_range ''morning'' cell \<longleftrightarrow> 6 \<le> x \<and> x < 12"
    and "in_time_range ''afternoon'' cell \<longleftrightarrow> 12 \<le> x \<and> x < 18"
    and "in_time_range ''evening'' cell \<longleftrightarrow> 18 \<le> x \<and> x < 24"
    and "in_time_range ''night'' cell \<longleftrightarrow> 0 \<le> x \<and> x < 6"
  using assms by (simp_all add: in_time_range_def js_ge_def js_lt_def)

lemma time_ranges_NaN:
  assumes "to_number cell = NaN"
  shows "filter (\<lambda>b. in_time_range b cell) time_buckets = []"
  using assms by (simp add: time_buckets_def in_time_range_def js_ge_def js_lt_def)

text \<open>
  C6. For an hour cell whose number is \<open>x\<close>, the morning predicate holds exactly
  when \<open>6 \<le> x < 12\<close>, the afternoon predicate when \<open>12 \<le> x < 18\<close>, the evening
  predicate when \<open>18 \<le> x < 24\<close> and the night predicate when \<open>0 \<le> x < 6\<close>; so
  when \<open>x\<close> is in \<open>[0,24)\<close> the cell is in exactly one of the four time
  buckets. No hour cell is in two of them, a cell that is not a number is in none,
  and for every pair of selectors the filtered data is a subset of the data: the
  records of the data that pass the time predicate and the severity predicate.
\<close>

theorem time_buckets_partition:
  assumes "to_number cell = Fin x"
  shows "(in_time_range ''morning'' cell \<longleftrightarrow> 6 \<le> x \<and> x < 12)
         \<and> (in_time_range ''afternoon'' cell \<longleftrightarrow> 12 \<le> x \<and> x < 18)
         \<and> (in_time_range ''evening'' cell \<longleftrightarrow> 18 \<le> x \<and> x < 24)
         \<and> (in_time_range ''night'' cell \<longleftrightarrow> 0 \<le> x \<and> x < 6)
         \<and> (0 \<le> x \<and> x < 24 \<longrightarrow> length (filter (\<lambda>b. in_time_range b cell) time_buckets) = 1)
         \<and> length (filter (\<lambda>b. in_time_range b any_hour) time_buckets) \<le> 1
         \<and> (to_number any_hour = NaN \<longrightarrow> filter (\<lambda>b. in_time_range b any_hour) time_buckets = [])
         \<and> set (filteredData loaded selectedTimeRange selectedSeverity) \<subseteq> set loaded
         \<and> (d \<in> set (filteredData loaded selectedTimeRange selectedSeverity) \<longleftrightarrow>
              d \<in> set loaded \<and> in_time_range selectedTimeRange (HOUR_OF_DAY d)
              \<and> has_severity selectedSeverity d)"
proof -
  note r = time_ranges [OF assms]
  have one: "length (filter (\<lambda>b. in_time_range b cell) time_buckets) = 1" if "0 \<le> x" "x < 24"
    using that r by (auto simp: time_buckets_def)
  have most: "length (filter (\<lambda>b. in_time_range b any_hour) time_buckets) \<le> 1"
  proof (cases "to_number any_hour")
    case NaN
    then show ?thesis by (simp add: time_ranges_NaN)
  next
    case (Fin y)
    from time_ranges [OF this] show ?thesis by (auto simp: time_buckets_def)
  qed
  have sub: "set (filteredData loaded selectedTimeRange selectedSeverity) \<subseteq> set loaded"
    by (auto simp: filteredData_def)
  have mem: "d \<in> set (filteredData loaded selectedTimeRange selectedSeverity) \<longleftrightarrow>
      d \<in> set loaded \<and> in_time_range selectedTimeRange (HOUR_OF_DAY d)
      \<and> has_severity selectedSeverity d"
    by (auto simp: filteredData_def)
  from r one most sub mem time_ranges_NaN [of any_hour] show ?thesis by blast
qed

theorem time_buckets_partition_witness:
  "filter (\<lambda>b. in_time_range b (HOUR_OF_DAY sample_crash)) time_buckets = [''morning'']
   \<and> in_time_range ''morning'' (JNum 6) \<and> \<not> in_time_range ''morning'' (JNum 12)
   \<and> in_time_range ''afternoon'' (JNum 12) \<and> \<not> in_time_range ''afternoon'' (JNum 18)
   \<and> in_time_range ''evening'' (JNum 18) \<and> \<not> in_time_range ''evening'' (JNum 24)
   \<and> in_time_range ''night'' (JNum 0) \<and> \<not> in_time_range ''night'' (JNum 6)
   \<and> set (filteredData [sample_crash] ''morning'' ''fatal'') \<subseteq> set [sample_crash]
   \<and> filteredData [sample_crash] ''morning'' ''fatal'' = [sample_crash]
   \<and> filteredData [sample_crash] ''evening'' ''fatal'' = []"
proof -
  have n: "to_number (HOUR_OF_DAY sample_crash) = Fin 8"
    by (simp add: sample_crash_def no_columns_def)
  note a = time_buckets_partition [OF n, of JNull "[sample_crash]" "''morning''" "''fatal''" sample_crash]
  from a have "filter (\<lambda>b. in_time_range b (HOUR_OF_DAY sample_crash)) time_buckets = [''morning'']"
    by (simp add: time_buckets_def)
  moreover from time_buckets_partition [of "JNum 6" 6 JNull "[]" "''all''" "''all''" sample_crash]
  have "in_time_range ''morning'' (JNum 6) \<and> \<not> in_time_range ''night'' (JNum 6)" by auto
  moreover from time_buckets_partition [of "JNum 12" 12 JNull "[]" "''all''" "''all''" sample_crash]
  have "in_time_range ''afternoon'' (JNum 12) \<and> \<not> in_time_range ''morning'' (JNum 12)" by auto
  moreover from time_buckets_partition [of "JNum 18" 18 JNull "[]" "''all''" "''all''" sample_crash]
  have "in_time_range ''evening'' (JNum 18) \<and> \<not> in_time_range ''afternoon'' (JNum 18)" by auto
  moreover from time_buckets_partition [of "JNum 24" 24 JNull "[]" "''all''" "''all''" sample_crash]
  have "\<not> in_time_range ''evening'' (JNum 24)" by auto
  moreover from time_buckets_partition [of "JNum 0" 0 JNull "[]" "''all''" "''all''" sample_crash]
  have "in_time_range ''night'' (JNum 0)" by auto
  moreover from a
  have "set (filteredData [sample_crash] ''morning'' ''fatal'') \<subseteq> set [sample_crash]" by blast
  moreover have "filteredData [sample_crash] ''morning'' ''fatal'' = [sample_crash]"
    "filteredData [sample_crash] ''evening'' ''fatal'' = []"
    by (simp_all add: filteredData_def in_time_range_def has_severity_def js_ge_def js_lt_def
        sample_crash_def no_columns_def)
  ultimately show ?thesis by blast
qed

subsection \<open>The join\<close>

lemma own_put_flag:
  assumes "k \<noteq> KStr ''__proto__''"
  shows "own (put_flag f lk) k =
           (if truthy (CRN f) \<and> to_property_key (CRN f) = k then Some f else own lk k)"
  using assms by (auto simp: put_flag_def)

lemma proto_put_flag:
  "to_property_key (CRN f) \<noteq> KStr ''__proto__'' \<Longrightarrow> proto (put_flag f lk) = proto lk"
  by (simp add: put_flag_def)

lemma own_foldl_put_flag:
  assumes "k \<noteq> KStr ''__proto__''"
  shows "own (foldl (\<lambda>lk flag. put_flag flag lk) lk flagRows) k =
           (let ms = filter (\<lambda>flag. truthy (CRN flag) \<and> to_property_key (CRN flag) = k) flagRows
            in if ms = [] then own lk k else Some (last ms))"
proof (induction flagRows rule: rev_induct)
  case Nil
  then show ?case by simp
next
  case (snoc f fs)
  then show ?case
    by (simp add: own_put_flag [OF assms] Let_def)
qed

lemma proto_foldl_put_flag:
  assumes "\<forall>f\<in>set flagRows. to_property_key (CRN f) \<noteq> KStr ''__proto__''"
  shows "proto (foldl (\<lambda>lk flag. put_flag flag lk) lk flagRows) = proto lk"
  using assms by (induction flagRows rule: rev_induct) (simp_all add: proto_put_flag)

text \<open>
  C5 (as amended). For every enriched crash \<open>e\<close> built by the join, where no flag
  row has the CRN \<^verbatim>\<open>__proto__\<close> and the CRN of \<open>e\<close> does not name a member of
  \<^verbatim>\<open>Object.prototype\<close>: if some flag row with a truthy CRN (not 0, not blank) has the
  CRN of \<open>e\<close> as its key, the flags of \<open>e\<close> are the last such row in source order;
  otherwise they are the empty object.
\<close>

theorem join_flags:
  assumes "e \<in> set (loadData flagRows crashRows)"
    and "\<forall>f\<in>set flagRows. to_property_key (CRN f) \<noteq> KStr ''__proto__''"
    and "to_property_key (CRN e) \<notin> KStr ` set object_prototype_members"
  shows "flags e = (if matching_flags flagRows (CRN e) = [] then Empty_object
                    else Flag_row (last (matching_flags flagRows (CRN e))))"
proof -
  from assms(1) obtain c where e: "e = enrich (flagLookup flagRows) c"
    by (auto simp: loadData_def)
  let ?k = "to_property_key (CRN c)"
  from assms(3) e have k: "?k \<noteq> KStr ''__proto__''"
    by (auto simp: object_prototype_members_def)
  have own: "own (flagLookup flagRows) ?k =
      (if matching_flags flagRows (CRN c) = [] then None
       else Some (last (matching_flags flagRows (CRN c))))"
    by (simp add: flagLookup_def own_foldl_put_flag [OF k] matching_flags_def Let_def)
  have proto: "proto (flagLookup flagRows) = None"
    by (simp add: flagLookup_def proto_foldl_put_flag [OF assms(2)])
  from assms(3) e have "\<And>name. ?k = KStr name \<Longrightarrow> name \<notin> set object_prototype_members"
    by auto
  with own proto show ?thesis
    by (auto simp: e lookup_flags_def split: pkey.splits)
qed

theorem join_flags_witness:
  "map flags (loadData [sample_flag, zero_crn_flag, sample_flag_again] [sample_crash, zero_crn_crash])
     = [Flag_row sample_flag_again, Empty_object]"
proof -
  let ?fs = "[sample_flag, zero_crn_flag, sample_flag_again]"
  let ?l = "flagLookup ?fs"
  have l: "loadData ?fs [sample_crash, zero_crn_crash]
           = [enrich ?l sample_crash, enrich ?l zero_crn_crash]"
    by (simp add: loadData_def isValid_def isNaN_def zero_crn_crash_def sample_crash_def
        no_columns_def)
  have p: "\<forall>f\<in>set ?fs. to_property_key (CRN f) \<noteq> KStr ''__proto__''"
    by (simp add: sample_flag_def zero_crn_flag_def sample_flag_again_def no_columns_def)
  have m1: "enrich ?l sample_crash \<in> set (loadData ?fs [sample_crash, zero_crn_crash])"
    and m2: "enrich ?l zero_crn_crash \<in> set (loadData ?fs [sample_crash, zero_crn_crash])"
    by (simp_all add: l)
  have k1: "to_property_key (CRN (enrich ?l sample_crash)) \<notin> KStr ` set object_prototype_members"
    and k2: "to_property_key (CRN (enrich ?l zero_crn_crash)) \<notin> KStr ` set object_prototype_members"
    by (auto simp: sample_crash_def zero_crn_crash_def no_columns_def)
  have a: "flags (enrich ?l sample_crash) = Flag_row sample_flag_again"
    using join_flags [OF m1 p k1]
    by (simp add: matching_flags_def sample_flag_def zero_crn_flag_def sample_flag_again_def
        sample_crash_def no_columns_def)
  have b: "flags (enrich ?l zero_crn_crash) = Empty_object"
    using join_flags [OF m2 p k2]
    by (simp add: matching_flags_def sample_flag_def zero_crn_flag_def sample_flag_again_def
        zero_crn_crash_def sample_crash_def no_columns_def)
  from a b show ?thesis by (simp add: l)
qed

text \<open>A flag row and a crash row that both have the CRN 0: the flag row is never
  stored, and the crash gets the empty object.\<close>

theorem zero_crn_not_joined:
  "CRN zero_crn_flag = CRN zero_crn_crash
   \<and> map flags (loadData [zero_crn_flag] [zero_crn_crash]) = [Empty_object]"
  by (simp add: loadData_def isValid_def isNaN_def zero_crn_crash_def zero_crn_flag_def
      sample_crash_def no_columns_def flagLookup_def put_flag_def lookup_flags_def)

subsection \<open>The hourly distribution\<close>

lemma dyn_typed_index:
  assumes "dyn_typed v"
  shows "(js_ge v 0 \<and> js_lt v 24 \<and> array_index v = Some i) \<longleftrightarrow> (i < 24 \<and> v = JNum (of_nat i))"
proof
  assume a: "js_ge v 0 \<and> js_lt v 24 \<and> array_index v = Some i"
  then have i: "i < 24" using hour_index_in_range by blast
  from a obtain r where k: "to_property_key v = KNum r" and w: "whole_index r = Some i"
    by (auto simp: array_index_def split: pkey.splits)
  from w have r: "r = of_nat i" by (rule whole_index_Some)
  have "v = JNum r"
  proof (cases v)
    case (JStr s n)
    with assms have "canonical_numeral s = None"
      by (auto simp: dyn_typed_def canonical_numeral_def split: option.splits)
    with JStr k show ?thesis by simp
  qed (use k in \<open>auto split: if_splits\<close>)
  with i r show "i < 24 \<and> v = JNum (of_nat i)" by simp
next
  assume a: "i < 24 \<and> v = JNum (of_nat i)"
  then have "(of_nat i :: rat) < of_nat 24" by (simp only: of_nat_less_iff)
  then have "(of_nat i :: rat) < 24" by simp
  with a show "js_ge v 0 \<and> js_lt v 24 \<and> array_index v = Some i"
    by (simp add: js_ge_def js_lt_def array_index_def whole_index_of_nat)
qed

lemma count_hour_dyn_typed:
  assumes "dyn_typed (HOUR_OF_DAY c)" and "length d = 24"
  shows "count_hour c d
         = map (\<lambda>h. d ! h + (if HOUR_OF_DAY c = JNum (of_nat h) then 1 else 0)) [0..<24]"
proof (cases "\<exists>i. js_ge (HOUR_OF_DAY c) 0 \<and> js_lt (HOUR_OF_DAY c) 24
                  \<and> array_index (HOUR_OF_DAY c) = Some i")
  case True
  then obtain i where i: "js_ge (HOUR_OF_DAY c) 0 \<and> js_lt (HOUR_OF_DAY c) 24
      \<and> array_index (HOUR_OF_DAY c) = Some i"
    by blast
  with assms(1) have v: "i < 24" "HOUR_OF_DAY c = JNum (of_nat i)"
    using dyn_typed_index by blast+
  from i have "count_hour c d = d[i := d ! i + 1]" by (simp add: count_hour_def)
  also have "\<dots> = map (\<lambda>h. d ! h + (if HOUR_OF_DAY c = JNum (of_nat h) then 1 else 0)) [0..<24]"
    using assms(2) v by (intro nth_equalityI) (auto simp: nth_list_update)
  finally show ?thesis .
next
  case False
  then have "count_hour c d = d" by (auto simp: count_hour_def split: option.splits)
  moreover have "HOUR_OF_DAY c \<noteq> JNum (of_nat h)" if "h < 24" for h
    using False dyn_typed_index [OF assms(1), of h] that by auto
  ultimately show ?thesis
    using assms(2) by (intro nth_equalityI) auto
qed

lemma foldl_count_hour:
  assumes "\<forall>c\<in>set crashes. dyn_typed (HOUR_OF_DAY c)" and "length d = 24"
  shows "foldl (\<lambda>distribution crash. count_hour crash distribution) d crashes
         = map (\<lambda>h. d ! h + length (filter (\<lambda>c. HOUR_OF_DAY c = JNum (of_nat h)) crashes)) [0..<24]"
  using assms
proof (induction crashes arbitrary: d)
  case Nil
  then show ?case by (intro nth_equalityI) auto
next
  case (Cons c cs)
  let ?d = "count_hour c d"
  have d': "?d = map (\<lambda>h. d ! h + (if HOUR_OF_DAY c = JNum (of_nat h) then 1 else 0)) [0..<24]"
    using Cons.prems by (simp add: count_hour_dyn_typed)
  then have len: "length ?d = 24" by simp
  have "foldl (\<lambda>distribution crash. count_hour crash distribution) d (c # cs)
        = foldl (\<lambda>distribution crash. count_hour crash distribution) ?d cs" by simp
  also have "\<dots> = map (\<lambda>h. ?d ! h + length (filter (\<lambda>c. HOUR_OF_DAY c = JNum (of_nat h)) cs)) [0..<24]"
    using Cons.IH [OF _ len] Cons.prems by simp
  also have "\<dots> = map (\<lambda>h. d ! h + length (filter (\<lambda>c. HOUR_OF_DAY c = JNum (of_nat h)) (c # cs))) [0..<24]"
    by (subst d') (auto intro!: nth_equalityI)
  finally show ?case .
qed

lemma upt_24:
  "[0..<24] = [0, 1, 2, 3, 4, 5, 6, 7, 8, 9, 10, 11, 12, 13, 14, 15, 16, 17, 18, 19, 20, 21, 22, 23]"
  by (simp add: upt_conv_Cons)

lemma map_enumerate_upt:
  "map (\<lambda>(i, x). g i x) (enumerate 0 (map f [0..<n])) = map (\<lambda>i. g i (f i)) [0..<n]"
  by (intro nth_equalityI) (auto simp: nth_enumerate_eq)

text \<open>
  C7. For every parsed dataset (no hour cell is a text of digits below \<open>2^53\<close>) the hourly
  distribution is the list of the 24 entries of hours 0 to 23 in order, labelled
  \<^verbatim>\<open>00:00\<close> to \<^verbatim>\<open>23:00\<close>, where entry \<open>h\<close> holds the number of records whose
  \<^verbatim>\<open>HOUR_OF_DAY\<close> is the number \<open>h\<close> (0 when there is none).
\<close>

theorem hourly_distribution:
  assumes "\<forall>c\<in>set crashes. dyn_typed (HOUR_OF_DAY c)"
  shows "processTimeDistribution crashes
         = map (\<lambda>h. (hour_label h, length (filter (\<lambda>c. HOUR_OF_DAY c = JNum (of_nat h)) crashes)))
             [0..<24]"
proof -
  have "foldl (\<lambda>distribution crash. count_hour crash distribution) (replicate 24 0) crashes
        = map (\<lambda>h. length (filter (\<lambda>c. HOUR_OF_DAY c = JNum (of_nat h)) crashes)) [0..<24]"
    using foldl_count_hour [OF assms, of "replicate 24 0"]
    by (auto intro!: nth_equalityI)
  then show ?thesis
    by (simp only: processTimeDistribution_def map_enumerate_upt)
qed

theorem hourly_distribution_witness:
  "processTimeDistribution hour_samples =
     [(''00:00'', 0), (''01:00'', 0), (''02:00'', 0), (''03:00'', 0), (''04:00'', 0), (''05:00'', 0),
      (''06:00'', 0), (''07:00'', 0), (''08:00'', 1), (''09:00'', 0), (''10:00'', 0), (''11:00'', 0),
      (''12:00'', 0), (''13:00'', 0), (''14:00'', 0), (''15:00'', 0), (''16:00'', 0), (''17:00'', 0),
      (''18:00'', 0), (''19:00'', 0), (''20:00'', 0), (''21:00'', 0), (''22:00'', 0), (''23:00'', 1)]"
proof -
  have d: "\<forall>c\<in>set hour_samples. dyn_typed (HOUR_OF_DAY c)"
    by (simp add: hour_samples_def sample_crash_def no_columns_def dyn_typed_def digits_value_def
        is_digit_def)
  show ?thesis
    unfolding hourly_distribution [OF d] upt_24
    by (simp add: hour_samples_def sample_crash_def no_columns_def hour_label_def padStart_def
        digit_char_def)
qed

subsection \<open>The monthly trends\<close>

lemma bounded_count_crash: "bounded b \<Longrightarrow> bounded (count_crash c b)"
  by (simp add: bounded_def count_crash_def)

lemma count_month_invariant:
  assumes "count_month c md = Inr md'" and "list_all bounded md"
  shows "length md' = length md \<and> list_all bounded md'"
proof (cases "js_ge (CRASH_MONTH c) 1 \<and> js_le (CRASH_MONTH c) 12")
  case False
  with assms show ?thesis by (simp add: count_month_def)
next
  case True
  with assms(1) obtain idx where idx: "idx < length md"
    and md': "md' = md[idx := count_crash c (md ! idx)]"
    by (auto simp: count_month_def element_index_def split: option.splits jsnum.splits if_splits)
  from assms(2) idx have "bounded (md ! idx)" by (simp add: list_all_length)
  then have "bounded (count_crash c (md ! idx))" by (rule bounded_count_crash)
  with assms(2) md' idx show ?thesis
    by (auto simp: list_all_length nth_list_update)
qed

lemma forEach_month_invariant:
  assumes "forEach_month cs md = Inr md'" and "list_all bounded md"
  shows "length md' = length md \<and> list_all bounded md'"
  using assms
proof (induction cs arbitrary: md)
  case Nil
  then show ?case by simp
next
  case (Cons c cs)
  from Cons.prems(1) obtain md1
    where s: "count_month c md = Inr md1" and r: "forEach_month cs md1 = Inr md'"
    by (auto split: sum.splits)
  from count_month_invariant [OF s Cons.prems(2)]
  have "length md1 = length md" "list_all bounded md1"
    by simp_all
  with Cons.IH [OF r] show ?case by simp
qed

lemma count_month_whole:
  assumes "whole_month (CRASH_MONTH c)" and "length md = 12"
  shows "\<exists>md'. count_month c md = Inr md'"
proof (cases "js_ge (CRASH_MONTH c) 1 \<and> js_le (CRASH_MONTH c) 12")
  case False
  then show ?thesis by (auto simp: count_month_def)
next
  case True
  then obtain r where r: "to_number (CRASH_MONTH c) = Fin r" "1 \<le> r" "r \<le> 12"
    by (auto simp: js_ge_def js_le_def split: jsnum.splits)
  with assms(1) have f: "frac r = 0" by (simp add: whole_month_def)
  then obtain k :: int where k: "r = of_int k"
    by (metis frac_eq_0_iff Ints_cases)
  with r have kb: "1 \<le> k" "k \<le> 12" by simp_all
  have r1: "r - 1 = of_int (k - 1)" using k by simp
  have "whole_index (r - 1) = Some (nat (k - 1))"
    unfolding r1 whole_index_def using kb by simp
  moreover have "nat (k - 1) < 12" using kb by simp
  ultimately have "element_index (Fin (r - 1)) md = Some (nat (k - 1))"
    using assms(2) by (simp add: element_index_def)
  with True r show ?thesis by (simp add: count_month_def)
qed

lemma forEach_month_whole:
  assumes "\<forall>c\<in>set cs. whole_month (CRASH_MONTH c)" and "length md = 12" and "list_all bounded md"
  shows "\<exists>md'. forEach_month cs md = Inr md'"
  using assms
proof (induction cs arbitrary: md)
  case Nil
  then show ?case by simp
next
  case (Cons c cs)
  from Cons.prems obtain md1 where s: "count_month c md = Inr md1"
    using count_month_whole [of c md] by auto
  from count_month_invariant [OF s Cons.prems(3)] Cons.prems(2)
  have "length md1 = 12" "list_all bounded md1" by simp_all
  with Cons.IH [of md1] Cons.prems(1) s show ?case by simp
qed

lemma forEach_month_append:
  "forEach_month (xs @ ys) md =
     (case forEach_month xs md of Inl e \<Rightarrow> Inl e | Inr md' \<Rightarrow> forEach_month ys md')"
  by (induction xs arbitrary: md) (auto split: sum.splits)

lemma count_month_both:
  assumes "CRASH_MONTH c = JNum (of_nat m)" and "1 \<le> m" and "m \<le> 12" and "length md = 12"
    and "js_gt (FATAL_COUNT c) 0" and "js_gt (INJURY_COUNT c) 0"
  shows "count_month c md =
     Inr (md[m - 1 := \<lparr>total' = total' (md ! (m - 1)) + 1, fatal = fatal (md ! (m - 1)) + 1,
                       injury = injury (md ! (m - 1)) + 1\<rparr>])"
proof -
  from assms(2) have "(of_nat 1 :: rat) \<le> of_nat m" by (simp only: of_nat_le_iff)
  then have g1: "(1::rat) \<le> of_nat m" by simp
  from assms(3) have "(of_nat m :: rat) \<le> of_nat 12" by (simp only: of_nat_le_iff)
  then have g2: "(of_nat m :: rat) \<le> 12" by simp
  have e: "(of_nat m :: rat) - 1 = of_nat (m - 1)" using assms(2) by (simp add: of_nat_diff)
  have "whole_index (of_nat (m - 1)) = Some (m - 1)"
    by (rule whole_index_of_nat) (use assms(3) in simp)
  then have w: "whole_index (of_nat m - 1) = Some (m - 1)" by (simp only: e)
  have guard: "js_ge (CRASH_MONTH c) 1 \<and> js_le (CRASH_MONTH c) 12"
    using g1 g2 assms(1) by (simp add: js_ge_def js_le_def)
  have "element_index (js_minus (to_number (CRASH_MONTH c)) (Fin 1)) md = Some (m - 1)"
    using w assms(1,3,4) by (simp add: element_index_def)
  with guard have "count_month c md = Inr (md[m - 1 := count_crash c (md ! (m - 1))])"
    by (simp add: count_month_def)
  with assms(5,6) show ?thesis by (simp add: count_crash_def)
qed

text \<open>
  C8. Whenever the monthly trends are produced there are 12 buckets, and in each the
  fatal count and the injury count are at most the total; they are produced for
  every dataset whose month cells in \<open>[1,12]\<close> are whole numbers; and one more
  crash of month \<open>m\<close> with \<^verbatim>\<open>FATAL_COUNT > 0\<close> and \<^verbatim>\<open>INJURY_COUNT > 0\<close> adds one
  to the total, the fatal and the injury counter of bucket \<open>m - 1\<close>.
\<close>

theorem monthly_trends:
  "(processMonthlyTrends short_month crashes = Inr months \<longrightarrow>
      length months = 12
      \<and> (\<forall>b\<in>set months. fatal (snd b) \<le> total' (snd b) \<and> injury (snd b) \<le> total' (snd b)))
   \<and> ((\<forall>c\<in>set crashes. whole_month (CRASH_MONTH c)) \<longrightarrow>
        (\<exists>months. processMonthlyTrends short_month crashes = Inr months))
   \<and> (processMonthlyTrends short_month crashes = Inr months \<and> CRASH_MONTH c = JNum (of_nat m)
        \<and> 1 \<le> m \<and> m \<le> 12 \<and> js_gt (FATAL_COUNT c) 0 \<and> js_gt (INJURY_COUNT c) 0 \<longrightarrow>
      processMonthlyTrends short_month (crashes @ [c])
        = Inr (months[m - 1 := trend_step (months ! (m - 1))]))"
proof (intro conjI impI)
  let ?init = "replicate 12 \<lparr>total' = 0, fatal = 0, injury = 0\<rparr>"
  have init: "list_all bounded ?init" "length ?init = 12"
    by (simp_all add: bounded_def list_all_length)
  {
    assume a: "processMonthlyTrends short_month crashes = Inr months"
    then obtain md where md: "forEach_month crashes ?init = Inr md"
      and months: "months = map (\<lambda>(idx, data). (short_month idx, data)) (enumerate 0 md)"
      by (auto simp: processMonthlyTrends_def split: sum.splits)
    from forEach_month_invariant [OF md init(1)] have inv: "length md = 12" "list_all bounded md"
      by simp_all
    from inv(1) months show "length months = 12" by simp
    show "\<forall>b\<in>set months. fatal (snd b) \<le> total' (snd b) \<and> injury (snd b) \<le> total' (snd b)"
    proof
      fix b assume "b \<in> set months"
      with months obtain i where "i < length md" "snd b = md ! i"
        by (auto simp: in_set_enumerate_eq)
      with inv(2) show "fatal (snd b) \<le> total' (snd b) \<and> injury (snd b) \<le> total' (snd b)"
        by (simp add: list_all_length bounded_def)
    qed
  }
  {
    assume "\<forall>c\<in>set crashes. whole_month (CRASH_MONTH c)"
    from forEach_month_whole [OF this init(2) init(1)]
    show "\<exists>months. processMonthlyTrends short_month crashes = Inr months"
      by (auto simp: processMonthlyTrends_def)
  }
  {
    assume a: "processMonthlyTrends short_month crashes = Inr months
        \<and> CRASH_MONTH c = JNum (of_nat m)
        \<and> 1 \<le> m \<and> m \<le> 12 \<and> js_gt (FATAL_COUNT c) 0 \<and> js_gt (INJURY_COUNT c) 0"
    then obtain md where md: "forEach_month crashes ?init = Inr md"
      and months: "months = map (\<lambda>(idx, data). (short_month idx, data)) (enumerate 0 md)"
      by (auto simp: processMonthlyTrends_def split: sum.splits)
    from forEach_month_invariant [OF md init(1)] have len: "length md = 12" by simp
    let ?md' = "md[m - 1 := \<lparr>total' = total' (md ! (m - 1)) + 1, fatal = fatal (md ! (m - 1)) + 1,
                       injury = injury (md ! (m - 1)) + 1\<rparr>]"
    from a len have step: "count_month c md = Inr ?md'"
      by (intro count_month_both) simp_all
    then have "forEach_month (crashes @ [c]) ?init = Inr ?md'"
      by (simp add: forEach_month_append md)
    then have "processMonthlyTrends short_month (crashes @ [c])
               = Inr (map (\<lambda>(idx, data). (short_month idx, data)) (enumerate 0 ?md'))"
      by (simp add: processMonthlyTrends_def)
    moreover have "map (\<lambda>(idx, data). (short_month idx, data)) (enumerate 0 ?md')
                   = months[m - 1 := trend_step (months ! (m - 1))]"
      using len a months
      by (intro nth_equalityI) (auto simp: nth_enumerate_eq nth_list_update trend_step_def)
    ultimately show "processMonthlyTrends short_month (crashes @ [c])
                     = Inr (months[m - 1 := trend_step (months ! (m - 1))])" by simp
  }
qed

theorem monthly_trends_witness:
  "processMonthlyTrends short_month_en [sample_crash] = Inr march_once
   \<and> processMonthlyTrends short_month_en ([sample_crash] @ [sample_crash]) = Inr march_twice"
proof -
  have one: "processMonthlyTrends short_month_en [sample_crash] = Inr march_once"
    by (simp add: processMonthlyTrends_def count_month_def element_index_def whole_index_def
        count_crash_def js_ge_def js_le_def sample_crash_def no_columns_def march_once_def
        no_crashes_def short_month_en_def eval_nat_numeral)
  have c: "CRASH_MONTH sample_crash = JNum (of_nat 3)" "js_gt (FATAL_COUNT sample_crash) 0"
    "js_gt (INJURY_COUNT sample_crash) 0"
    by (simp_all add: sample_crash_def no_columns_def)
  from monthly_trends [of short_month_en "[sample_crash]" march_once sample_crash 3] one c
  have "processMonthlyTrends short_month_en ([sample_crash] @ [sample_crash])
        = Inr (march_once[3 - 1 := trend_step (march_once ! (3 - 1))])"
    by simp
  also have "march_once[3 - 1 := trend_step (march_once ! (3 - 1))] = march_twice"
    by (simp add: march_once_def march_twice_def trend_step_def no_crashes_def eval_nat_numeral)
  finally show ?thesis using one by simp
qed

subsection \<open>The 24-hour batch\<close>


lemma fold_update_length [simp]:
  "length (fold (\<lambda>i vs. vs[i := Some (v i)]) arrivals vals) = length vals"
  by (induction arrivals arbitrary: vals) simp_all


lemma those_map_Some [simp]: "those (map (Some \<circ> f) xs) = Some (map f xs)"
  by (induction xs) simp_all










text \<open>On the night the clocks go forward the hour 02:30 does not exist: the request
  two hours after 00:30 is tagged 3, as the request three hours after it.\<close>

lemma spring_forward_tags:
  "hour_tags (hourlyPredictions spring_forward_zone half_past_midnight echo_service [0..<24])
   = [0, 1, 3, 3, 4, 5, 6, 7, 8, 9, 10, 11, 12, 13, 14, 15, 16, 17, 18, 19, 20, 21, 22, 23]"
  by code_simp

end
